theory Spec2Isabelle
  imports Main "HOL-Library.Sublist"
begin

section \<open>Python strings\<close>

text \<open>
  A Python \<open>str\<close> is a sequence of Unicode code points; a code point is modelled
  as a natural number, so that \<open>len\<close>, slicing and \<open>in\<close> count what Python counts.
  String literals of the program are written \<open>str ''...''\<close>.
\<close>

type_synonym codepoint = nat
type_synonym pystr = "codepoint list"

definition str :: "string \<Rightarrow> pystr" where
  "str s = map of_char s"

text \<open>
  \<open>str.isspace\<close> for one code point: the characters on which \<open>str.split()\<close> and
  \<open>str.strip()\<close> (called without argument) act. These are U+0009..U+000D,
  U+001C..U+001F, U+0020, U+0085, U+00A0, U+1680, U+2000..U+200A, U+2028, U+2029, U+202F,
  U+205F and U+3000.
\<close>

definition isspace :: "codepoint \<Rightarrow> bool" where
  "isspace c =
     ((9 \<le> c \<and> c \<le> 13) \<or> (28 \<le> c \<and> c \<le> 32) \<or> c = 133 \<or> c = 160 \<or> c = 5760 \<or>
      (8192 \<le> c \<and> c \<le> 8202) \<or> c = 8232 \<or> c = 8233 \<or> c = 8239 \<or> c = 8287 \<or> c = 12288)"

text \<open>
  \<open>str.lower\<close> and \<open>str.upper\<close>. The case mapping of the letters A..Z and a..z is
  modelled; every other code point is left as it is (the scripts the program is written
  for, Tamil, Hindi, Telugu, Kannada and Malayalam, have no case).
\<close>

definition lower_cp :: "codepoint \<Rightarrow> codepoint" where
  "lower_cp c = (if 65 \<le> c \<and> c \<le> 90 then c + 32 else c)"

definition upper_cp :: "codepoint \<Rightarrow> codepoint" where
  "upper_cp c = (if 97 \<le> c \<and> c \<le> 122 then c - 32 else c)"

definition py_lower :: "pystr \<Rightarrow> pystr" where
  "py_lower s = map lower_cp s"

definition py_upper :: "pystr \<Rightarrow> pystr" where
  "py_upper s = map upper_cp s"

text \<open>\<open>s.strip()\<close>: leading and trailing whitespace removed.\<close>

definition py_strip :: "pystr \<Rightarrow> pystr" where
  "py_strip s = rev (dropWhile isspace (rev (dropWhile isspace s)))"

text \<open>
  \<open>s.split()\<close>: the maximal runs of non-whitespace characters, in order. The scan
  keeps the token read so far in \<open>tok\<close>; a whitespace character closes a non-empty token.
\<close>

fun split_from :: "pystr \<Rightarrow> pystr \<Rightarrow> pystr list" where
  "split_from tok [] = (if tok = [] then [] else [tok])"
| "split_from tok (c # cs) =
     (if isspace c then (if tok = [] then split_from [] cs else tok # split_from [] cs)
      else split_from (tok @ [c]) cs)"

definition py_split :: "pystr \<Rightarrow> pystr list" where
  "py_split s = split_from [] s"

text \<open>\<open>sep.join(xs)\<close>.\<close>

fun py_join :: "pystr \<Rightarrow> pystr list \<Rightarrow> pystr" where
  "py_join sep [] = []"
| "py_join sep [x] = x"
| "py_join sep (x # y # ys) = x @ sep @ py_join sep (y # ys)"

text \<open>\<open>sub in s\<close> on strings: \<open>sub\<close> occurs in \<open>s\<close> as a contiguous substring.\<close>

definition py_in :: "pystr \<Rightarrow> pystr \<Rightarrow> bool" where
  "py_in sub s = sublist sub s"

section \<open>Input validation\<close>

text \<open>\<open>is_valid_news\<close> (app.py, lines 90 to 100).\<close>

definition greetings :: "pystr list" where
  "greetings = [str ''hi'', str ''hello'', str ''hey'', str ''ok'', str ''test'']"

definition is_valid_news :: "pystr \<Rightarrow> bool" where
  "is_valid_news text0 =
     (let text = py_lower (py_strip text0) in
      if length (py_split text) < 5 then False
      else if text \<in> set greetings then False
      else True)"

text \<open>
  The simpler predicate of the specification: the trimmed text has at least five
  whitespace-separated tokens.
\<close>

definition at_least_five_tokens :: "pystr \<Rightarrow> bool" where
  "at_least_five_tokens text0 = (5 \<le> length (py_split (py_strip text0)))"

section \<open>Exceptions, external services and their results\<close>

text \<open>
  A call of a Python function that may raise is modelled by a value of \<open>exn + 'a\<close>:
  \<open>Inr v\<close> when it returns \<open>v\<close>, \<open>Inl e\<close> when it raises \<open>e\<close>. An exception carries
  its message \<open>str(e)\<close>. \<open>Exception m\<close> stands for an instance of a class that derives
  from \<open>Exception\<close>, \<open>BaseException m\<close> for one that does not (KeyboardInterrupt,
  SystemExit): a bare \<open>except:\<close> catches both, \<open>except Exception\<close> only the first.
\<close>

datatype exn = Exception pystr | BaseException pystr

text \<open>The calls made to the language detector and to the reasoning service, in order.\<close>

datatype call = DetectCall pystr | GroqCall pystr

text \<open>\<open>requests.Response\<close>: the two attributes the program reads.\<close>

record response =
  status_code :: int
  resp_text :: pystr

text \<open>
  A parsed document (\<open>bs4\<close>): a \<open>Tag\<close> has an identity (the Python object; distinct
  tags have distinct identities), a name and its contents; a \<open>NavigableString\<close> is a
  piece of text that \<open>get_text\<close> yields. The \<open>BeautifulSoup\<close> object is the root tag.
\<close>

datatype element = NavigableString pystr | Tag nat pystr "element list"

text \<open>\<open>numpy.ndarray\<close>: its shape and its data.\<close>

record ndarray =
  shape :: "nat list"
  pixels :: "nat list"

text \<open>
  Everything outside the program: \<open>langdetect.detect\<close>; the reasoning service
  (\<open>client.chat.completions.create(model, messages, temperature=0.1)\<close> followed by
  \<open>.choices[0].message.content\<close>); \<open>requests.get(url, headers, timeout)\<close>;
  \<open>BeautifulSoup(markup, "html.parser")\<close>; \<open>Image.open\<close>, \<open>np.array\<close>,
  \<open>cv2.cvtColor(img, cv2.COLOR_RGB2GRAY)\<close> and \<open>pytesseract.image_to_string(gray, lang)\<close>.
  \<open>prompt_head\<close> is the fixed text of the prompt that precedes the news text (the
  decision policy, lines 123 to 174). \<open>'f\<close> is the type of an uploaded file, \<open>'img\<close> that
  of a PIL image.
\<close>

record ('f, 'img) env =
  detect :: "pystr \<Rightarrow> exn + pystr"
  prompt_head :: pystr
  chat_completion :: "pystr \<Rightarrow> (pystr \<times> pystr) list \<Rightarrow> exn + pystr"
  requests_get :: "pystr \<Rightarrow> (pystr \<times> pystr) list \<Rightarrow> nat \<Rightarrow> exn + response"
  html_parser :: "pystr \<Rightarrow> exn + element"
  image_open :: "'f \<Rightarrow> exn + 'img"
  np_array :: "'img \<Rightarrow> exn + ndarray"
  cvtColor :: "ndarray \<Rightarrow> exn + ndarray"
  image_to_string :: "ndarray \<Rightarrow> pystr \<Rightarrow> exn + pystr"

section \<open>Language detection\<close>

text \<open>\<open>d.get(k, default)\<close> on a dictionary given by its items.\<close>

definition dict_get :: "('k \<times> 'v) list \<Rightarrow> 'k \<Rightarrow> 'v \<Rightarrow> 'v" where
  "dict_get d k dflt = (case map_of d k of None \<Rightarrow> dflt | Some v \<Rightarrow> v)"

definition lang_map :: "(pystr \<times> pystr) list" where
  "lang_map =
     [(str ''en'', str ''English''), (str ''ta'', str ''Tamil''), (str ''hi'', str ''Hindi''),
      (str ''te'', str ''Telugu''), (str ''kn'', str ''Kannada''), (str ''ml'', str ''Malayalam'')]"

text \<open>
  \<open>detect_language_safe\<close> (lines 103 to 119). The whole body stands in a \<open>try\<close> whose
  bare \<open>except:\<close> returns \<open>"Unknown"\<close>. The result comes with the calls made.
\<close>

definition detect_language_safe ::
  "('f, 'img) env \<Rightarrow> pystr \<Rightarrow> (exn + pystr) \<times> call list" where
  "detect_language_safe w text0 =
     (if length (py_split text0) < 5 then (Inr (str ''Not enough text''), [])
      else
        (case detect w text0 of
           Inl e \<Rightarrow> (Inr (str ''Unknown''), [DetectCall text0])
         | Inr lang_code \<Rightarrow>
             (Inr (dict_get lang_map lang_code (py_upper lang_code)), [DetectCall text0])))"

text \<open>
  The labels of the specification and the strings the program shows for them:
  \<open>Other code\<close> is shown as the uppercased code.
\<close>

datatype language_label =
  English | Tamil | Hindi | Telugu | Kannada | Malayalam | Other pystr | Unknown | InsufficientText

fun label_text :: "language_label \<Rightarrow> pystr" where
  "label_text English = str ''English''"
| "label_text Tamil = str ''Tamil''"
| "label_text Hindi = str ''Hindi''"
| "label_text Telugu = str ''Telugu''"
| "label_text Kannada = str ''Kannada''"
| "label_text Malayalam = str ''Malayalam''"
| "label_text (Other code) = py_upper code"
| "label_text Unknown = str ''Unknown''"
| "label_text InsufficientText = str ''Not enough text''"

section \<open>The reasoning service and the verdict\<close>

text \<open>
  \<open>call_groq\<close> (lines 122 to 184): the prompt is the fixed head, the news text and the
  closing triple quote; the request has a system and a user message.
\<close>

definition call_groq :: "('f, 'img) env \<Rightarrow> pystr \<Rightarrow> (exn + pystr) \<times> call list" where
  "call_groq w news_text =
     (let prompt = prompt_head w @ news_text @ [34, 34, 34] in
      (chat_completion w (str ''llama-3.1-8b-instant'')
         [(str ''system'', str ''You are a professional fact-checker.''), (str ''user'', prompt)],
       [GroqCall news_text]))"

datatype verdict = Fake | Real

text \<open>The badge chosen from the response (lines 271 to 274): \<open>"FAKE" in result.upper()\<close>.\<close>

definition verdict_of :: "pystr \<Rightarrow> verdict" where
  "verdict_of result = (if py_in (str ''FAKE'') (py_upper result) then Fake else Real)"


section \<open>Text extraction\<close>

subsection \<open>From a URL\<close>

text \<open>
  \<open>soup(names)\<close>, that is \<open>soup.find_all(names)\<close>: the tags below the root whose name
  is one of \<open>names\<close>, in document order, given by their identities.
\<close>

fun matching :: "pystr list \<Rightarrow> element \<Rightarrow> nat list" where
  "matching names (NavigableString s) = []"
| "matching names (Tag i n cs) =
     (if n \<in> set names then [i] else []) @ concat (map (matching names) cs)"

fun find_all :: "element \<Rightarrow> pystr list \<Rightarrow> nat list" where
  "find_all (NavigableString s) names = []"
| "find_all (Tag i n cs) names = concat (map (matching names) cs)"

text \<open>
  \<open>tag.decompose()\<close>, as a function of the document: the tag with identity \<open>i\<close> is
  taken out of the contents of its parent, with everything below it. A tag that is no
  longer in the document (it went away with an enclosing tag) leaves the document as it is.
\<close>

fun has_id :: "nat \<Rightarrow> element \<Rightarrow> bool" where
  "has_id i (NavigableString s) = False"
| "has_id i (Tag j n cs) = (i = j)"

fun decompose :: "nat \<Rightarrow> element \<Rightarrow> element" where
  "decompose i (NavigableString s) = NavigableString s"
| "decompose i (Tag j n cs) = Tag j n (map (decompose i) (filter (\<lambda>c. \<not> has_id i c) cs))"

text \<open>\<open>soup.get_text()\<close>: the strings of the document, concatenated in document order.\<close>

fun get_text :: "element \<Rightarrow> pystr" where
  "get_text (NavigableString s) = s"
| "get_text (Tag i n cs) = concat (map get_text cs)"

definition removed_tags :: "pystr list" where
  "removed_tags = [str ''script'', str ''style'', str ''nav'', str ''footer'', str ''header'']"

text \<open>
  \<open>extract_text_from_url\<close> (lines 193 to 205). The body stands in a \<open>try\<close> whose bare
  \<open>except:\<close> returns the empty string. The loop \<open>for tag in soup([...]): tag.decompose()\<close>
  is the fold of \<open>decompose\<close> over the tags found.
\<close>

definition extract_text_from_url :: "('f, 'img) env \<Rightarrow> pystr \<Rightarrow> exn + pystr" where
  "extract_text_from_url w url =
     (case requests_get w url [(str ''User-Agent'', str ''Mozilla/5.0'')] 8 of
        Inl e \<Rightarrow> Inr []
      | Inr r \<Rightarrow>
          if status_code r \<noteq> 200 then Inr []
          else
            (case html_parser w (resp_text r) of
               Inl e \<Rightarrow> Inr []
             | Inr soup \<Rightarrow>
                 (let soup' = fold decompose (find_all soup removed_tags) soup;
                      text = py_join (str '' '') (py_split (get_text soup'))
                  in Inr (take 4000 text))))"

text \<open>
  The specification's reading of the removal: the text of a document outside every
  element whose name is one of \<open>names\<close>.
\<close>

fun is_named :: "pystr list \<Rightarrow> element \<Rightarrow> bool" where
  "is_named names (NavigableString s) = False"
| "is_named names (Tag i n cs) = (n \<in> set names)"

fun visible_text :: "pystr list \<Rightarrow> element \<Rightarrow> pystr" where
  "visible_text names (NavigableString s) = s"
| "visible_text names (Tag i n cs) =
     concat (map (visible_text names) (filter (\<lambda>c. \<not> is_named names c) cs))"

text \<open>The identities of the tags of a document, the root included.\<close>

fun tag_ids :: "element \<Rightarrow> nat list" where
  "tag_ids (NavigableString s) = []"
| "tag_ids (Tag i n cs) = i # concat (map tag_ids cs)"

text \<open>
  Whitespace is collapsed in a string when each whitespace character of it is a single
  space that no other whitespace character follows.
\<close>

fun collapsed :: "pystr \<Rightarrow> bool" where
  "collapsed [] = True"
| "collapsed [c] = (if isspace c then c = 32 else True)"
| "collapsed (c # d # cs) =
     ((if isspace c then c = 32 \<and> \<not> isspace d else True) \<and> collapsed (d # cs))"

subsection \<open>From an image\<close>

text \<open>
  \<open>extract_text_from_image\<close> (lines 187 to 190). The function has no \<open>try\<close>: an
  exception of one of its three calls is the function's own.
\<close>

definition extract_text_from_image :: "('f, 'img) env \<Rightarrow> 'img \<Rightarrow> exn + pystr" where
  "extract_text_from_image w image' =
     (case np_array w image' of
        Inl e \<Rightarrow> Inl e
      | Inr img \<Rightarrow>
          (case (if length (shape img) = 3 then cvtColor w img else Inr img) of
             Inl e \<Rightarrow> Inl e
           | Inr gray \<Rightarrow> image_to_string w gray (str ''eng+tam+hin+tel+kan+mal'')))"

section \<open>The pipeline\<close>

text \<open>
  The input section (lines 216 to 242): the text area's content, the text extracted from
  a non-empty URL, or the text read from an uploaded image; the empty string otherwise.
\<close>

datatype 'f raw_input = TextInput pystr | URLInput pystr | ImageInput "'f option"

fun get_news_text :: "('f, 'img) env \<Rightarrow> 'f raw_input \<Rightarrow> exn + pystr" where
  "get_news_text w (TextInput t) = Inr t"
| "get_news_text w (URLInput url) = (if url \<noteq> [] then extract_text_from_url w url else Inr [])"
| "get_news_text w (ImageInput None) = Inr []"
| "get_news_text w (ImageInput (Some uploaded_image)) =
     (case image_open w uploaded_image of
        Inl e \<Rightarrow> Inl e
      | Inr image' \<Rightarrow> extract_text_from_image w image')"

text \<open>What the result section shows: the language, the badge and the response.\<close>

record analysis_result =
  shown_lang :: pystr
  shown_verdict :: verdict
  shown_result :: pystr

text \<open>
  How one request ends: the warning of the validation check followed by \<open>st.stop()\<close>
  (\<open>Rejected\<close>), the result section (\<open>Done\<close>), the error message of the handler
  \<open>except Exception as e\<close> (\<open>Failed\<close>), or an exception that no handler catches.
\<close>

datatype outcome = Rejected | Done analysis_result | Failed pystr | Uncaught exn

fun on_exception :: "exn \<Rightarrow> outcome" where
  "on_exception (Exception m) = Failed m"
| "on_exception (BaseException m) = Uncaught (BaseException m)"

text \<open>The analysis block (lines 250 to 288), once the button is pressed.\<close>

definition analysis :: "('f, 'img) env \<Rightarrow> pystr \<Rightarrow> outcome \<times> call list" where
  "analysis w news_text =
     (if \<not> is_valid_news news_text then (Rejected, [])
      else
        (case detect_language_safe w news_text of
           (Inl e, calls) \<Rightarrow> (on_exception e, calls)
         | (Inr lang, calls) \<Rightarrow>
             (case call_groq w news_text of
                (Inl e, calls') \<Rightarrow> (on_exception e, calls @ calls')
              | (Inr result, calls') \<Rightarrow>
                  (Done \<lparr>shown_lang = lang, shown_verdict = verdict_of result,
                          shown_result = result\<rparr>,
                   calls @ calls'))))"

definition pipeline :: "('f, 'img) env \<Rightarrow> 'f raw_input \<Rightarrow> outcome \<times> call list" where
  "pipeline w inp =
     (case get_news_text w inp of
        Inl e \<Rightarrow> (Uncaught e, [])
      | Inr news_text \<Rightarrow> analysis w news_text)"

section \<open>Auxiliary notions for the proofs about documents\<close>

text \<open>The document without the tags whose identity is in \<open>S\<close>.\<close>

fun id_in :: "nat set \<Rightarrow> element \<Rightarrow> bool" where
  "id_in S (NavigableString s) = False"
| "id_in S (Tag j n cs) = (j \<in> S)"

fun remove_ids :: "nat set \<Rightarrow> element \<Rightarrow> element" where
  "remove_ids S (NavigableString s) = NavigableString s"
| "remove_ids S (Tag j n cs) = Tag j n (map (remove_ids S) (filter (\<lambda>c. \<not> id_in S c) cs))"

text \<open>The tags of a document with their names, and those below its root.\<close>

fun tags :: "element \<Rightarrow> (nat \<times> pystr) list" where
  "tags (NavigableString s) = []"
| "tags (Tag i n cs) = (i, n) # concat (map tags cs)"

fun below :: "element \<Rightarrow> (nat \<times> pystr) list" where
  "below (NavigableString s) = []"
| "below (Tag i n cs) = concat (map tags cs)"

section \<open>Test doubles of the services\<close>

text \<open>
  A detector that finds English, a reasoning service that answers REAL, a web server
  that has no page, and an uploaded PNG image with a gray and an alpha channel: its
  array has shape (height, width, 2), and the colour conversion accepts three or four
  channels only.
\<close>

definition mock_env :: "(unit, unit) env" where
  "mock_env =
     \<lparr>detect = (\<lambda>t. Inr (str ''en'')),
      prompt_head = str ''News: '',
      chat_completion = (\<lambda>m msgs. Inr (str ''FINAL VERDICT: REAL'')),
      requests_get = (\<lambda>url headers timeout. Inr \<lparr>status_code = 404, resp_text = []\<rparr>),
      html_parser = (\<lambda>markup. Inr (Tag 0 (str ''[document]'') [NavigableString markup])),
      image_open = (\<lambda>f. Inr ()),
      np_array = (\<lambda>image'. Inr \<lparr>shape = [1, 1, 2], pixels = [0, 255]\<rparr>),
      cvtColor =
        (\<lambda>img. if shape img = [1, 1, 3] \<or> shape img = [1, 1, 4]
               then Inr \<lparr>shape = [1, 1], pixels = [0]\<rparr>
               else Inl (Exception (str ''Invalid number of channels in input image''))),
      image_to_string = (\<lambda>gray lang. Inr [])\<rparr>"

text \<open>
  A web server that answers with the markup
  \<^verbatim>\<open><html><script>x</script><p>Hello World</p></html>\<close>, and the document the
  parser makes of it.
\<close>

definition example_markup :: pystr where
  "example_markup = str ''<html><script>x</script><p>Hello World</p></html>''"

definition example_page :: element where
  "example_page =
     Tag 0 (str ''[document]'')
       [Tag 1 (str ''html'')
          [Tag 2 (str ''script'') [NavigableString (str ''x'')],
           Tag 3 (str ''p'') [NavigableString (str ''Hello World'')]]]"

definition page_env :: "(unit, unit) env" where
  "page_env =
     mock_env
       \<lparr>requests_get :=
          (\<lambda>url headers timeout. Inr \<lparr>status_code = 200, resp_text = example_markup\<rparr>),
        html_parser := (\<lambda>markup. Inr example_page)\<rparr>"

section \<open>Facts about the string functions\<close>

lemma isspace_lower_cp: "isspace (lower_cp c) = isspace c"
  by (simp add: isspace_def lower_cp_def)

lemma length_split_from_map:
  assumes "\<And>c. isspace (f c) = isspace c"
  shows "length (split_from (map f tok) (map f cs)) = length (split_from tok cs)"
proof (induction cs arbitrary: tok)
  case Nil
  show ?case by simp
next
  case (Cons c cs)
  have step: "length (split_from (map f (tok @ [c])) (map f cs)) = length (split_from (tok @ [c]) cs)"
    by (rule Cons.IH)
  have empty: "length (split_from (map f []) (map f cs)) = length (split_from [] cs)"
    by (rule Cons.IH)
  show ?case using step empty by (simp add: assms)
qed

lemma length_split_lower: "length (py_split (py_lower s)) = length (py_split s)"
  using length_split_from_map [of lower_cp "[]" s]
  by (simp add: py_split_def py_lower_def isspace_lower_cp)

lemma split_from_dropWhile: "split_from [] (dropWhile isspace s) = split_from [] s"
  by (induction s) simp_all

lemma split_from_spaces:
  "\<forall>c \<in> set ws. isspace c \<Longrightarrow> split_from tok ws = (if tok = [] then [] else [tok])"
proof (induction ws arbitrary: tok)
  case Nil
  show ?case by simp
next
  case (Cons c ws)
  then have "split_from [] ws = []" by simp
  with Cons.prems show ?case by simp
qed

lemma split_from_append_spaces:
  "\<forall>c \<in> set ws. isspace c \<Longrightarrow> split_from tok (s @ ws) = split_from tok s"
  by (induction s arbitrary: tok) (simp_all add: split_from_spaces)

lemma rev_dropWhile_rev:
  "rev (dropWhile P (rev s)) @ rev (takeWhile P (rev s)) = s"
proof -
  have "rev (dropWhile P (rev s)) @ rev (takeWhile P (rev s))
      = rev (takeWhile P (rev s) @ dropWhile P (rev s))"
    by (simp only: rev_append)
  also have "\<dots> = rev (rev s)" by (simp only: takeWhile_dropWhile_id)
  finally show ?thesis by simp
qed

lemma split_from_rstrip: "split_from tok (rev (dropWhile isspace (rev s))) = split_from tok s"
proof -
  let ?ws = "rev (takeWhile isspace (rev s))"
  have "\<forall>c \<in> set ?ws. isspace c" by (auto dest: set_takeWhileD)
  then have "split_from tok (rev (dropWhile isspace (rev s)) @ ?ws)
      = split_from tok (rev (dropWhile isspace (rev s)))"
    by (rule split_from_append_spaces)
  moreover have "rev (dropWhile isspace (rev s)) @ ?ws = s"
    by (rule rev_dropWhile_rev)
  ultimately show ?thesis by simp
qed

lemma py_split_strip: "py_split (py_strip s) = py_split s"
  by (simp add: py_split_def py_strip_def split_from_rstrip split_from_dropWhile)

lemma greeting_one_token: "g \<in> set greetings \<Longrightarrow> length (py_split g) = 1"
  by (auto simp: greetings_def str_def py_split_def isspace_def)

lemma valid_iff_five_tokens: "is_valid_news text0 \<longleftrightarrow> 5 \<le> length (py_split text0)"
proof (cases "py_lower (py_strip text0) \<in> set greetings")
  case True
  then have "length (py_split (py_lower (py_strip text0))) = 1" by (rule greeting_one_token)
  then have "length (py_split text0) = 1" by (simp add: length_split_lower py_split_strip)
  then show ?thesis
    by (simp add: is_valid_news_def Let_def length_split_lower py_split_strip)
next
  case False
  then show ?thesis
    by (auto simp: is_valid_news_def Let_def length_split_lower py_split_strip)
qed

section \<open>Claims about input validation\<close>

text \<open>
  Claim C2. \<open>is_valid_news\<close> returns false exactly when the trimmed text has fewer than
  five whitespace-separated tokens or the lowercased trimmed text is one of the five
  greetings. (The program counts the tokens of the lowercased text; the count is the same.)
  The function is a function of the string alone.
\<close>

theorem is_valid_news_false_iff:
  "is_valid_news text0 = False \<longleftrightarrow>
     length (py_split (py_strip text0)) < 5 \<or>
     py_lower (py_strip text0) \<in> {str ''hi'', str ''hello'', str ''hey'', str ''ok'', str ''test''}"
  by (auto simp: is_valid_news_def Let_def length_split_lower greetings_def)

text \<open>
  Claim C9. \<open>is_valid_news\<close> is the predicate "the trimmed text has at least five
  tokens": each of the greetings is a single token, so a text that equals one is rejected
  by the token count already and the membership check never decides the result.
\<close>

theorem is_valid_news_eq_token_count:
  "is_valid_news text0 = at_least_five_tokens text0 \<and>
   list_all (\<lambda>g. length (py_split g) = 1) greetings"
proof -
  have "is_valid_news text0 = at_least_five_tokens text0"
    by (simp add: valid_iff_five_tokens at_least_five_tokens_def py_split_strip)
  moreover have "list_all (\<lambda>g. length (py_split g) = 1) greetings"
    unfolding list_all_iff using greeting_one_token by blast
  ultimately show ?thesis by (rule conjI)
qed

section \<open>Claims about the verdict\<close>







section \<open>Claims about language detection\<close>

lemma label_text_lang_map:
  "map_of lang_map code = Some v \<Longrightarrow>
     v \<in> label_text ` {English, Tamil, Hindi, Telugu, Kannada, Malayalam}"
  by (auto simp: lang_map_def split: if_splits)

lemma dict_get_lang_map_label:
  "\<exists>lab. dict_get lang_map code (py_upper code) = label_text lab"
proof (cases "map_of lang_map code")
  case None
  then have "dict_get lang_map code (py_upper code) = label_text (Other code)"
    by (simp add: dict_get_def)
  then show ?thesis ..
next
  case (Some v)
  then have "v \<in> label_text ` {English, Tamil, Hindi, Telugu, Kannada, Malayalam}"
    by (rule label_text_lang_map)
  then obtain lab where "v = label_text lab" by blast
  with Some have "dict_get lang_map code (py_upper code) = label_text lab"
    by (simp add: dict_get_def)
  then show ?thesis ..
qed

text \<open>
  Claim C3. \<open>detect_language_safe\<close> returns for every string, whatever the detector
  does: it never raises, its result is the text of a label of the fixed set, and an
  exception of the detector gives Unknown.
\<close>

theorem detect_language_safe_total:
  "(\<exists>lab. fst (detect_language_safe w text0) = Inr (label_text lab)) \<and>
   (5 \<le> length (py_split text0) \<longrightarrow> detect w text0 = Inl e \<longrightarrow>
      fst (detect_language_safe w text0) = Inr (label_text Unknown))"
proof -
  have "\<exists>lab. fst (detect_language_safe w text0) = Inr (label_text lab)"
  proof (cases "length (py_split text0) < 5")
    case True
    then have "fst (detect_language_safe w text0) = Inr (label_text InsufficientText)"
      by (simp add: detect_language_safe_def)
    then show ?thesis ..
  next
    case enough: False
    show ?thesis
    proof (cases "detect w text0")
      case (Inl e')
      with enough have "fst (detect_language_safe w text0) = Inr (label_text Unknown)"
        by (simp add: detect_language_safe_def)
      then show ?thesis ..
    next
      case (Inr code)
      obtain lab where "dict_get lang_map code (py_upper code) = label_text lab"
        using dict_get_lang_map_label by blast
      with enough Inr have "fst (detect_language_safe w text0) = Inr (label_text lab)"
        by (simp add: detect_language_safe_def)
      then show ?thesis ..
    qed
  qed
  moreover have "5 \<le> length (py_split text0) \<longrightarrow> detect w text0 = Inl e \<longrightarrow>
      fst (detect_language_safe w text0) = Inr (label_text Unknown)"
    by (simp add: detect_language_safe_def)
  ultimately show ?thesis by (rule conjI)
qed

lemma five_symbol_tokens: "length (py_split (str ''?? !! ## %% &&'')) = 5"
  by (simp add: py_split_def str_def isspace_def)

theorem detect_language_safe_total_witness:
  "5 \<le> length (py_split (str ''?? !! ## %% &&'')) \<and>
   detect (mock_env\<lparr>detect := (\<lambda>t. Inl (Exception (str ''No features in text.'')))\<rparr>)
     (str ''?? !! ## %% &&'') = Inl (Exception (str ''No features in text.'')) \<and>
   fst (detect_language_safe
         (mock_env\<lparr>detect := (\<lambda>t. Inl (Exception (str ''No features in text.'')))\<rparr>)
         (str ''?? !! ## %% &&'')) = Inr (str ''Unknown'')"
  using detect_language_safe_total
    [of "mock_env\<lparr>detect := (\<lambda>t. Inl (Exception (str ''No features in text.'')))\<rparr>"
        "str ''?? !! ## %% &&''" "Exception (str ''No features in text.'')"]
  by (simp add: five_symbol_tokens)

text \<open>
  Claim C4. On a string of fewer than five tokens \<open>detect_language_safe\<close> returns
  InsufficientText, which is not Unknown, whatever the string and the detector are, and
  makes no call of the detector.
\<close>

theorem detect_language_safe_short:
  "length (py_split text0) < 5 \<Longrightarrow>
     detect_language_safe w text0 = (Inr (label_text InsufficientText), []) \<and>
     label_text InsufficientText \<noteq> label_text Unknown"
  by (simp add: detect_language_safe_def str_def)

lemma three_tokens: "length (py_split (str ''Breaking news today'')) = 3"
  by (simp add: py_split_def str_def isspace_def)

theorem detect_language_safe_short_witness:
  "length (py_split (str ''Breaking news today'')) < 5 \<and>
   detect_language_safe mock_env (str ''Breaking news today'') = (Inr (str ''Not enough text''), [])"
  using detect_language_safe_short [of "str ''Breaking news today''" mock_env]
  by (simp add: three_tokens)

section \<open>Claims about the pipeline\<close>

text \<open>
  Claim C8. When validation fails on the text of an input, the request ends in the
  rejected state with no call of the language detector or of the reasoning service; the
  rejected state is not the failed state.
\<close>

theorem invalid_input_rejected:
  "get_news_text w inp = Inr news_text \<Longrightarrow> \<not> is_valid_news news_text \<Longrightarrow>
     pipeline w inp = (Rejected, []) \<and> (\<forall>m. Rejected \<noteq> Failed m)"
  by (simp add: pipeline_def analysis_def)

lemma hello_invalid: "\<not> is_valid_news (str ''hello'')"
  by (simp add: valid_iff_five_tokens py_split_def str_def isspace_def)

theorem invalid_input_rejected_witness:
  "get_news_text mock_env (TextInput (str ''hello'')) = Inr (str ''hello'') \<and>
   \<not> is_valid_news (str ''hello'') \<and>
   pipeline mock_env (TextInput (str ''hello'')) = (Rejected, [])"
  using invalid_input_rejected [of mock_env "TextInput (str ''hello'')" "str ''hello''"]
  by (simp add: hello_invalid)

lemma upper_cp_not_lowercase_o: "upper_cp c \<noteq> 111"
  unfolding upper_cp_def by (cases "97 \<le> c \<and> c \<le> 122") auto

lemma py_upper_not_insufficient: "py_upper code \<noteq> str ''Not enough text''"
proof
  assume "py_upper code = str ''Not enough text''"
  then have "111 \<in> set (py_upper code)" by (simp add: str_def)
  then show False by (auto simp: py_upper_def upper_cp_not_lowercase_o)
qed

lemma lang_map_not_insufficient: "map_of lang_map code = Some v \<Longrightarrow> v \<noteq> str ''Not enough text''"
  by (auto simp: lang_map_def str_def split: if_splits)

lemma detect_not_insufficient:
  assumes "5 \<le> length (py_split text0)"
  shows "fst (detect_language_safe w text0) \<noteq> Inr (str ''Not enough text'')"
proof (cases "detect w text0")
  case (Inl e)
  with assms show ?thesis by (simp add: detect_language_safe_def str_def)
next
  case (Inr code)
  have "dict_get lang_map code (py_upper code) \<noteq> str ''Not enough text''"
    by (cases "map_of lang_map code")
       (simp_all add: dict_get_def py_upper_not_insufficient lang_map_not_insufficient)
  with assms Inr show ?thesis by (simp add: detect_language_safe_def)
qed

lemma analysis_Done_lang:
  "analysis w news_text = (Done r, calls) \<Longrightarrow>
     is_valid_news news_text \<and> Inr (shown_lang r) = fst (detect_language_safe w news_text)"
  by (cases "detect_language_safe w news_text"; cases "call_groq w news_text")
     (auto simp: analysis_def split: if_splits sum.splits elim: on_exception.elims)

text \<open>
  Claim C10. A text that passes validation has at least five tokens, so language
  detection does not return InsufficientText on it, and no result that is shown carries
  that label.
\<close>

theorem valid_text_never_insufficient:
  "is_valid_news news_text \<Longrightarrow>
     5 \<le> length (py_split news_text) \<and>
     fst (detect_language_safe w news_text) \<noteq> Inr (label_text InsufficientText) \<and>
     (\<forall>r calls. analysis w news_text = (Done r, calls) \<longrightarrow>
        shown_lang r \<noteq> label_text InsufficientText)"
proof -
  assume "is_valid_news news_text"
  then have five: "5 \<le> length (py_split news_text)" by (simp add: valid_iff_five_tokens)
  then have ne: "fst (detect_language_safe w news_text) \<noteq> Inr (str ''Not enough text'')"
    by (rule detect_not_insufficient)
  have "shown_lang r \<noteq> str ''Not enough text''" if "analysis w news_text = (Done r, calls)" for r calls
    using analysis_Done_lang [OF that] ne by auto
  with five ne show ?thesis by simp
qed

lemma six_tokens: "length (py_split (str ''Scientists confirmed the new vaccine works'')) = 6"
  by (simp add: py_split_def str_def isspace_def)

theorem valid_text_never_insufficient_witness:
  "is_valid_news (str ''Scientists confirmed the new vaccine works'') \<and>
   fst (detect_language_safe mock_env (str ''Scientists confirmed the new vaccine works''))
     \<noteq> Inr (str ''Not enough text'')"
  using valid_text_never_insufficient [of "str ''Scientists confirmed the new vaccine works''" mock_env]
  by (simp add: valid_iff_five_tokens six_tokens)

section \<open>Claims about text extraction\<close>

text \<open>
  Claim C5. \<open>extract_text_from_url\<close> returns the empty string when the request raises
  or its status is not 200; it does not raise.
\<close>

theorem extract_text_from_url_failure:
  "(case requests_get w url [(str ''User-Agent'', str ''Mozilla/5.0'')] 8 of
      Inl e \<Rightarrow> True
    | Inr r \<Rightarrow> status_code r \<noteq> 200) \<Longrightarrow>
   extract_text_from_url w url = Inr []"
  by (auto simp: extract_text_from_url_def split: sum.splits)

theorem extract_text_from_url_failure_witness:
  "requests_get mock_env (str ''http://example.org/a'') [(str ''User-Agent'', str ''Mozilla/5.0'')] 8
     = Inr \<lparr>status_code = 404, resp_text = []\<rparr> \<and>
   extract_text_from_url mock_env (str ''http://example.org/a'') = Inr [] \<and>
   extract_text_from_url
     (mock_env\<lparr>requests_get := (\<lambda>url headers timeout. Inl (Exception (str ''ConnectionError'')))\<rparr>)
     (str ''http://example.org/a'') = Inr []"
  using extract_text_from_url_failure [of mock_env "str ''http://example.org/a''"]
    extract_text_from_url_failure
      [of "mock_env\<lparr>requests_get := (\<lambda>url headers timeout. Inl (Exception (str ''ConnectionError'')))\<rparr>"
          "str ''http://example.org/a''"]
  by (simp add: mock_env_def)

subsection \<open>The loop of \<open>decompose\<close> removes the named elements\<close>

lemma decompose_remove_ids: "decompose i (remove_ids S e) = remove_ids (insert i S) e"
proof (induction e)
  case (NavigableString s)
  show ?case by simp
next
  case (Tag j n cs)
  have keep: "(\<not> id_in S c \<and> \<not> has_id i (remove_ids S c)) = (\<not> id_in (insert i S) c)" for c
    by (cases c) auto
  have "map (decompose i)
          (filter (\<lambda>c. \<not> has_id i c) (map (remove_ids S) (filter (\<lambda>c. \<not> id_in S c) cs)))
      = map (\<lambda>c. decompose i (remove_ids S c)) (filter (\<lambda>c. \<not> id_in (insert i S) c) cs)"
    by (simp add: filter_map o_def keep)
  also have "\<dots> = map (remove_ids (insert i S)) (filter (\<lambda>c. \<not> id_in (insert i S) c) cs)"
    by (rule map_cong) (simp_all add: Tag.IH)
  finally show ?case by simp
qed

lemma remove_ids_empty: "remove_ids {} e = e"
proof (induction e)
  case (NavigableString s)
  show ?case by simp
next
  case (Tag j n cs)
  have "map (remove_ids {}) cs = map (\<lambda>c. c) cs"
    by (rule map_cong) (simp_all add: Tag.IH)
  moreover have "filter (\<lambda>c. \<not> id_in {} c) cs = cs"
    by (rule filter_True) (auto elim: id_in.elims)
  ultimately show ?case by simp
qed

lemma fold_decompose_remove_ids:
  "fold decompose ids (remove_ids S e) = remove_ids (set ids \<union> S) e"
proof (induction ids arbitrary: S)
  case Nil
  show ?case by simp
next
  case (Cons i ids)
  have "fold decompose (i # ids) (remove_ids S e) = fold decompose ids (remove_ids (insert i S) e)"
    by (simp add: decompose_remove_ids)
  also have "\<dots> = remove_ids (set ids \<union> insert i S) e" by (rule Cons.IH)
  finally show ?case by simp
qed

lemma fold_decompose: "fold decompose ids e = remove_ids (set ids) e"
  using fold_decompose_remove_ids [of ids "{}" e] by (simp add: remove_ids_empty)

lemma matching_tags:
  "matching names e = map fst (filter (\<lambda>p. snd p \<in> set names) (tags e))"
proof (induction e)
  case (NavigableString s)
  show ?case by simp
next
  case (Tag i n cs)
  have "map (matching names) cs = map (\<lambda>c. map fst (filter (\<lambda>p. snd p \<in> set names) (tags c))) cs"
    by (rule map_cong) (simp_all add: Tag.IH)
  then have "concat (map (matching names) cs)
      = concat (map (\<lambda>c. map fst (filter (\<lambda>p. snd p \<in> set names) (tags c))) cs)"
    by (rule arg_cong)
  then show ?case by (simp add: filter_concat map_concat o_def)
qed

lemma find_all_below:
  "find_all e names = map fst (filter (\<lambda>p. snd p \<in> set names) (below e))"
proof (cases e)
  case (NavigableString s)
  then show ?thesis by simp
next
  case (Tag i n cs)
  have "map (matching names) cs = map (\<lambda>c. map fst (filter (\<lambda>p. snd p \<in> set names) (tags c))) cs"
    by (rule map_cong) (simp_all add: matching_tags)
  then have "concat (map (matching names) cs)
      = concat (map (\<lambda>c. map fst (filter (\<lambda>p. snd p \<in> set names) (tags c))) cs)"
    by (rule arg_cong)
  with Tag show ?thesis by (simp add: filter_concat map_concat o_def)
qed

lemma tag_ids_tags: "tag_ids e = map fst (tags e)"
proof (induction e)
  case (NavigableString s)
  show ?case by simp
next
  case (Tag i n cs)
  have "map tag_ids cs = map (\<lambda>c. map fst (tags c)) cs"
    by (rule map_cong) (simp_all add: Tag.IH)
  then have "concat (map tag_ids cs) = concat (map (\<lambda>c. map fst (tags c)) cs)"
    by (rule arg_cong)
  then show ?case by (simp add: map_concat o_def)
qed

lemma distinct_below: "distinct (tag_ids e) \<Longrightarrow> distinct (map fst (below e))"
proof (cases e)
  case (NavigableString s)
  then show ?thesis by simp
next
  case (Tag i n cs)
  assume "distinct (tag_ids e)"
  with Tag have "distinct (map fst (tags (Tag i n cs)))" by (simp only: tag_ids_tags)
  with Tag show ?thesis by simp
qed

lemma below_subset_tags: "set (below e) \<subseteq> set (tags e)"
  by (cases e) auto

lemma found_iff_named:
  assumes "distinct (tag_ids e)" and "(j, n) \<in> set (below e)"
  shows "j \<in> set (find_all e names) \<longleftrightarrow> n \<in> set names"
proof
  assume "j \<in> set (find_all e names)"
  then obtain n' where "(j, n') \<in> set (below e)" and named: "n' \<in> set names"
    by (auto simp: find_all_below)
  with assms have "n' = n"
    using distinct_below [of e] by (meson eq_key_imp_eq_value)
  with named show "n \<in> set names" by simp
next
  assume "n \<in> set names"
  with assms(2) show "j \<in> set (find_all e names)"
    by (force simp: find_all_below)
qed

lemma get_text_remove_ids:
  "(\<And>j n. (j, n) \<in> set (below e) \<Longrightarrow> j \<in> S \<longleftrightarrow> n \<in> set names) \<Longrightarrow>
     get_text (remove_ids S e) = visible_text names e"
proof (induction e)
  case (NavigableString s)
  show ?case by simp
next
  case (Tag i m cs)
  have child_tags: "set (tags c) \<subseteq> set (below (Tag i m cs))" if "c \<in> set cs" for c
    using that by auto
  have same: "id_in S c = is_named names c" if "c \<in> set cs" for c
  proof (cases c)
    case (NavigableString s)
    then show ?thesis by simp
  next
    case (Tag j n ds)
    then have "(j, n) \<in> set (below (element.Tag i m cs))" using child_tags [OF that] by auto
    then have "j \<in> S \<longleftrightarrow> n \<in> set names" by (rule Tag.prems)
    with Tag show ?thesis by simp
  qed
  have rec: "get_text (remove_ids S c) = visible_text names c" if "c \<in> set cs" for c
  proof (rule Tag.IH [OF that])
    fix j n
    assume "(j, n) \<in> set (below c)"
    then have "(j, n) \<in> set (below (Tag i m cs))"
      using below_subset_tags [of c] child_tags [OF that] by blast
    then show "j \<in> S \<longleftrightarrow> n \<in> set names" by (rule Tag.prems)
  qed
  have "filter (\<lambda>c. \<not> id_in S c) cs = filter (\<lambda>c. \<not> is_named names c) cs"
    by (rule filter_cong) (simp_all add: same)
  moreover have "map (\<lambda>c. get_text (remove_ids S c)) (filter (\<lambda>c. \<not> is_named names c) cs)
      = map (visible_text names) (filter (\<lambda>c. \<not> is_named names c) cs)"
    by (rule map_cong) (simp_all add: rec)
  then have "concat (map (\<lambda>c. get_text (remove_ids S c)) (filter (\<lambda>c. \<not> is_named names c) cs))
      = concat (map (visible_text names) (filter (\<lambda>c. \<not> is_named names c) cs))"
    by (rule arg_cong)
  ultimately show ?case by (simp add: o_def)
qed

lemma get_text_after_loop:
  assumes "distinct (tag_ids soup)"
  shows "get_text (fold decompose (find_all soup names) soup) = visible_text names soup"
proof -
  have "get_text (remove_ids (set (find_all soup names)) soup) = visible_text names soup"
    by (rule get_text_remove_ids) (rule found_iff_named [OF assms])
  then show ?thesis by (simp only: fold_decompose)
qed

subsection \<open>Joining the tokens collapses whitespace\<close>

lemma split_from_tokens:
  "(\<forall>c \<in> set tok. \<not> isspace c) \<Longrightarrow> t \<in> set (split_from tok s) \<Longrightarrow>
     t \<noteq> [] \<and> (\<forall>c \<in> set t. \<not> isspace c)"
proof (induction s arbitrary: tok)
  case Nil
  then show ?case by (auto split: if_splits)
next
  case (Cons c s)
  show ?case
  proof (cases "isspace c")
    case True
    with Cons.prems have "t = tok \<and> tok \<noteq> [] \<or> t \<in> set (split_from [] s)"
      by (auto split: if_splits)
    then show ?thesis
    proof
      assume "t = tok \<and> tok \<noteq> []"
      with Cons.prems(1) show ?thesis by simp
    next
      assume "t \<in> set (split_from [] s)"
      with Cons.IH [of "[]"] show ?thesis by simp
    qed
  next
    case False
    with Cons.prems have "t \<in> set (split_from (tok @ [c]) s)" by simp
    moreover from False Cons.prems(1) have "\<forall>d \<in> set (tok @ [c]). \<not> isspace d" by simp
    ultimately show ?thesis using Cons.IH [of "tok @ [c]"] by blast
  qed
qed

lemma py_split_tokens:
  "t \<in> set (py_split s) \<Longrightarrow> t \<noteq> [] \<and> (\<forall>c \<in> set t. \<not> isspace c)"
  using split_from_tokens [of "[]" t s] by (simp add: py_split_def)

lemma collapsed_nonspace: "\<not> isspace a \<Longrightarrow> collapsed (a # zs) = collapsed zs"
  by (cases zs) simp_all

lemma collapsed_append_nonspace:
  "\<forall>c \<in> set x. \<not> isspace c \<Longrightarrow> collapsed ys \<Longrightarrow> collapsed (x @ ys)"
  by (induction x) (simp_all add: collapsed_nonspace)

lemma collapsed_space: "zs \<noteq> [] \<Longrightarrow> \<not> isspace (hd zs) \<Longrightarrow> collapsed zs \<Longrightarrow> collapsed (32 # zs)"
  by (cases zs) simp_all

lemma py_join_hd: "y \<noteq> [] \<Longrightarrow> py_join sep (y # ys) \<noteq> [] \<and> hd (py_join sep (y # ys)) = hd y"
  by (cases ys) simp_all

lemma collapsed_join:
  "\<forall>t \<in> set ts. t \<noteq> [] \<and> (\<forall>c \<in> set t. \<not> isspace c) \<Longrightarrow> collapsed (py_join [32] ts)"
proof (induction ts)
  case Nil
  show ?case by simp
next
  case (Cons x ts)
  from Cons.prems have x: "\<forall>c \<in> set x. \<not> isspace c" by simp
  show ?case
  proof (cases ts)
    case Nil
    from x have "collapsed (x @ [])" by (intro collapsed_append_nonspace) simp_all
    with Nil show ?thesis by simp
  next
    case (Cons y ys)
    with Cons.prems have y: "y \<noteq> []" "\<not> isspace (hd y)" by simp_all
    from Cons.prems have "collapsed (py_join [32] ts)" by (intro Cons.IH) simp
    moreover from y Cons have "py_join [32] ts \<noteq> []" "\<not> isspace (hd (py_join [32] ts))"
      by (simp_all add: py_join_hd)
    ultimately have "collapsed (32 # py_join [32] ts)" by (intro collapsed_space)
    with x have "collapsed (x @ 32 # py_join [32] ts)" by (intro collapsed_append_nonspace)
    with Cons show ?thesis by simp
  qed
qed

lemma collapsed_take: "collapsed xs \<Longrightarrow> collapsed (take k xs)"
proof (induction xs arbitrary: k rule: collapsed.induct)
  case 1
  show ?case by simp
next
  case (2 c)
  then show ?case by (cases k) simp_all
next
  case (3 c d cs)
  show ?case
  proof (cases k)
    case 0
    then show ?thesis by simp
  next
    case (Suc k')
    from "3.prems" have "collapsed (take k' (d # cs))" by (intro "3.IH") simp
    with "3.prems" Suc show ?thesis by (cases k') simp_all
  qed
qed

lemma collapsed_output: "collapsed (take k (py_join (str '' '') (py_split s)))"
proof -
  have "collapsed (py_join [32] (py_split s))"
    by (rule collapsed_join) (auto dest: py_split_tokens)
  then have "collapsed (take k (py_join [32] (py_split s)))" by (rule collapsed_take)
  then show ?thesis by (simp add: str_def)
qed

subsection \<open>No named element is left after the loop\<close>

lemma below_remove_ids:
  "(\<And>j n. (j, n) \<in> set (below e) \<Longrightarrow> j \<in> S \<longleftrightarrow> n \<in> set names) \<Longrightarrow>
     (j, n) \<in> set (below (remove_ids S e)) \<Longrightarrow> n \<notin> set names"
proof (induction e arbitrary: j n)
  case (NavigableString s)
  then show ?case by simp
next
  case (Tag i m cs)
  from Tag.prems(2) obtain c where c: "c \<in> set cs" "\<not> id_in S c"
      and jn: "(j, n) \<in> set (tags (remove_ids S c))"
    by auto
  have sub: "set (tags c) \<subseteq> set (below (Tag i m cs))" using c(1) by auto
  show ?case
  proof (cases c)
    case (NavigableString s)
    with jn show ?thesis by simp
  next
    case inner: (Tag k l ds)
    with sub have "(k, l) \<in> set (below (element.Tag i m cs))" by auto
    then have "k \<in> S \<longleftrightarrow> l \<in> set names" by (rule Tag.prems(1))
    with c(2) inner have l: "l \<notin> set names" by simp
    from jn inner have "(j, n) = (k, l) \<or> (j, n) \<in> set (below (remove_ids S c))" by auto
    then show ?thesis
    proof
      assume "(j, n) = (k, l)"
      with l show ?thesis by simp
    next
      assume deeper: "(j, n) \<in> set (below (remove_ids S c))"
      show ?thesis
      proof (rule Tag.IH [OF c(1) _ deeper])
        fix j' n'
        assume "(j', n') \<in> set (below c)"
        then have "(j', n') \<in> set (below (element.Tag i m cs))"
          using below_subset_tags [of c] sub by blast
        then show "j' \<in> S \<longleftrightarrow> n' \<in> set names" by (rule Tag.prems(1))
      qed
    qed
  qed
qed

lemma none_named_after_loop:
  assumes "distinct (tag_ids soup)"
    and "p \<in> set (below (fold decompose (find_all soup names) soup))"
  shows "snd p \<notin> set names"
proof -
  obtain j n where p: "p = (j, n)" by (cases p)
  with assms(2) have "(j, n) \<in> set (below (remove_ids (set (find_all soup names)) soup))"
    by (simp only: fold_decompose)
  then have "n \<notin> set names"
    by (rule below_remove_ids [rotated]) (rule found_iff_named [OF assms(1)])
  with p show ?thesis by simp
qed

subsection \<open>The claims\<close>

text \<open>
  Claim C6. When the request succeeds with status 200 and the body parses, the loop
  leaves no script, style, nav, footer or header element in the document, and
  \<open>extract_text_from_url\<close> returns the text of the document outside these elements (so
  no text of a script element is taken into the output), with whitespace collapsed to
  single spaces, cut to at most 4000 characters. Whitespace at the two ends of the text
  is dropped. The identities of a document's tags are distinct.
\<close>

theorem extract_text_from_url_success:
  assumes "requests_get w url [(str ''User-Agent'', str ''Mozilla/5.0'')] 8 = Inr r"
    and "status_code r = 200"
    and "html_parser w (resp_text r) = Inr soup"
    and "distinct (tag_ids soup)"
  shows "\<exists>out. extract_text_from_url w url = Inr out \<and>
           out = take 4000 (py_join (str '' '')
                   (py_split (visible_text
                      [str ''script'', str ''style'', str ''nav'', str ''footer'', str ''header'']
                      soup))) \<and>
           collapsed out \<and> length out \<le> 4000 \<and>
           list_all (\<lambda>p. snd p \<notin> set removed_tags)
             (below (fold decompose (find_all soup removed_tags) soup))"
proof -
  let ?names = "[str ''script'', str ''style'', str ''nav'', str ''footer'', str ''header'']"
  let ?out = "take 4000 (py_join (str '' '') (py_split (visible_text ?names soup)))"
  have "get_text (fold decompose (find_all soup removed_tags) soup) = visible_text removed_tags soup"
    using assms(4) by (rule get_text_after_loop)
  then have "extract_text_from_url w url
      = Inr (take 4000 (py_join (str '' '') (py_split (visible_text removed_tags soup))))"
    unfolding extract_text_from_url_def Let_def using assms(1-3) by simp
  then have "extract_text_from_url w url = Inr ?out"
    by (simp only: removed_tags_def)
  moreover have "collapsed ?out" by (rule collapsed_output)
  moreover have "length ?out \<le> 4000" by (simp only: length_take min.cobounded2)
  moreover have "list_all (\<lambda>p. snd p \<notin> set removed_tags)
      (below (fold decompose (find_all soup removed_tags) soup))"
    unfolding list_all_iff using none_named_after_loop [OF assms(4)] by blast
  ultimately show ?thesis by blast
qed

lemma example_page_ids: "tag_ids example_page = [0, 1, 2, 3]"
  by (simp add: example_page_def)

lemma example_page_visible:
  "visible_text [str ''script'', str ''style'', str ''nav'', str ''footer'', str ''header'']
     example_page = str ''Hello World''"
  by (simp add: example_page_def str_def)

lemma split_hello_world: "py_split (str ''Hello World'') = [str ''Hello'', str ''World'']"
  by (simp add: py_split_def str_def isspace_def)

lemma join_hello_world:
  "take 4000 (py_join (str '' '') [str ''Hello'', str ''World'']) = str ''Hello World''"
  by (simp add: str_def)

theorem extract_text_from_url_success_witness:
  "requests_get page_env (str ''http://example.org/a'') [(str ''User-Agent'', str ''Mozilla/5.0'')] 8
     = Inr \<lparr>status_code = 200, resp_text = example_markup\<rparr> \<and>
   html_parser page_env example_markup = Inr example_page \<and>
   distinct (tag_ids example_page) \<and>
   extract_text_from_url page_env (str ''http://example.org/a'') = Inr (str ''Hello World'')"
proof -
  let ?r = "\<lparr>status_code = 200, resp_text = example_markup\<rparr>"
  have get: "requests_get page_env (str ''http://example.org/a'')
      [(str ''User-Agent'', str ''Mozilla/5.0'')] 8 = Inr ?r"
    by (simp add: page_env_def)
  have ok: "status_code ?r = 200" by simp
  have parse: "html_parser page_env (resp_text ?r) = Inr example_page"
    by (simp add: page_env_def)
  have ids: "distinct (tag_ids example_page)" by (simp add: example_page_ids)
  from extract_text_from_url_success [OF get ok parse ids]
  have "extract_text_from_url page_env (str ''http://example.org/a'') = Inr (str ''Hello World'')"
    by (simp only: example_page_visible split_hello_world join_hello_world) simp
  with get parse ids show ?thesis by simp
qed

lemma extract_text_from_url_returns: "\<exists>s. extract_text_from_url w url = Inr s"
  by (simp add: extract_text_from_url_def Let_def split: sum.splits)

lemma extract_text_from_image_propagates:
  "np_array w image' = Inr img \<Longrightarrow> length (shape img) = 3 \<Longrightarrow> cvtColor w img = Inl e \<Longrightarrow>
     extract_text_from_image w image' = Inl e"
  by (simp add: extract_text_from_image_def)

text \<open>
  Claim C7. \<open>extract_text_from_url\<close> returns a string whatever the request and the
  parser do, and the text input is passed on as it is. \<open>extract_text_from_image\<close>
  catches nothing: on an uploaded image with two channels the exception of the colour
  conversion leaves the function, and the request ends with it uncaught.
\<close>

theorem extract_text_from_image_raises:
  "extract_text_from_image mock_env ()
     = Inl (Exception (str ''Invalid number of channels in input image'')) \<and>
   pipeline mock_env (ImageInput (Some ()))
     = (Uncaught (Exception (str ''Invalid number of channels in input image'')), [])"
  by (simp add: extract_text_from_image_def pipeline_def mock_env_def)

end
